theory Spec2Isabelle
  imports Main "HOL-Library.Word"
begin

section \<open>Values received from the chain node\<close>

text \<open>
  The indexer reads a \<open>common.Hash\<close> and a \<open>common.Address\<close> only through their
  \<open>Hex()\<close> and \<open>String()\<close> renderings, so both are carried as that rendering. Byte
  strings (extra data, bloom filter, nonce, log payload) are lists of bytes and are
  rendered as the \<open>fmt\<close> verbs of the source do.
\<close>

type_synonym Hash = string
type_synonym Address = string
type_synonym bytes = "8 word list"

definition hexdigit :: "nat \<Rightarrow> char" where
  "hexdigit d = ''0123456789abcdef'' ! (d mod 16)"

definition hex_bytes :: "bytes \<Rightarrow> string" where
  \<comment> \<open>\<open>fmt.Sprintf("0x%x", b)\<close> and \<open>hexutil.Encode(b)\<close>\<close>
  "hex_bytes bs = ''0x'' @ concat (map (\<lambda>b. [hexdigit (unat b div 16), hexdigit (unat b)]) bs)"

fun dec :: "nat \<Rightarrow> string" where
  \<comment> \<open>\<open>fmt.Sprintf("%d", n)\<close> of an unsigned number\<close>
  "dec n = (if n < 10 then [hexdigit n] else dec (n div 10) @ [hexdigit (n mod 10)])"

declare dec.simps [simp del]

definition big_String :: "int option \<Rightarrow> string" where
  \<comment> \<open>\<open>(*big.Int).String()\<close>: the receiver may be nil\<close>
  "big_String x =
     (case x of None \<Rightarrow> ''<nil>''
      | Some i \<Rightarrow> (if i < 0 then ''-'' else []) @ dec (nat \<bar>i\<bar>))"

fun spaced :: "string list \<Rightarrow> string" where
  "spaced [] = []"
| "spaced [x] = x"
| "spaced (x # y # ys) = x @ '' '' @ spaced (y # ys)"

definition dec_bytes :: "bytes \<Rightarrow> string" where
  \<comment> \<open>\<open>fmt.Sprintf("%d", a)\<close> of a byte array\<close>
  "dec_bytes bs = ''['' @ spaced (map (\<lambda>b. dec (unat b)) bs) @ '']''"

definition Uint64 :: "int \<Rightarrow> 64 word" where
  \<comment> \<open>\<open>(*big.Int).Uint64()\<close>: the low 64 bits of the magnitude\<close>
  "Uint64 x = of_nat (nat \<bar>x\<bar>)"

text \<open>
  Modelled from the spec: \<open>types.Header\<close>, \<open>types.Receipt\<close> and \<open>types.Log\<close> are
  declared outside the files at hand. The fields are those the indexer reads; the optional
  ones (base fee, blob-gas fields, withdrawals root, parent-beacon root) are the pointers
  the source compares with \<open>nil\<close>, \<open>None\<close> being the nil pointer. \<open>hHash\<close> is the value
  of \<open>header.Hash()\<close>.
\<close>

record Header =
  hHash :: Hash
  hParentHash :: Hash
  hUncleHash :: Hash
  hCoinbase :: Address
  hRoot :: Hash
  hTxHash :: Hash
  hReceiptHash :: Hash
  hBloom :: bytes
  hDifficulty :: int
  hNumber :: int
  hGasLimit :: "64 word"
  hGasUsed :: "64 word"
  hTime :: "64 word"
  hExtra :: bytes
  hMixDigest :: Hash
  hNonce :: bytes
  hBaseFee :: "int option"
  hWithdrawalsHash :: "Hash option"
  hBlobGasUsed :: "64 word option"
  hExcessBlobGas :: "64 word option"
  hParentBeaconRoot :: "Hash option"

record ChainLog =
  cl_Address :: Address
  cl_Topics :: "Hash list"
  cl_Data :: bytes
  cl_Index :: "64 word"

record ChainReceipt =
  cr_TxHash :: Hash
  cr_ContractAddress :: Address
  cr_GasUsed :: "64 word"
  cr_Status :: "64 word"
  cr_Logs :: "ChainLog list"

section \<open>The relational records of db.go\<close>

record NullString =
  String :: string
  Valid :: bool

definition NullString_zero :: NullString where
  "NullString_zero = \<lparr>String = [], Valid = False\<rparr>"

record Block =
  Number :: "64 word"
  Hash :: string
  ParentHash :: string
  Timestamp :: int
  Nonce :: string
  BaseFeePerGas :: NullString
  BlobGasUsed :: NullString
  Difficulty :: string
  ExcessBlobGas :: NullString
  ExtraData :: string
  GasLimit :: string
  GasUsed :: string
  LogsBloom :: NullString
  Miner :: string
  MixHash :: string
  ParentBeaconBlockRoot :: NullString
  ReceiptsRoot :: string
  Sha3Uncles :: string
  Size :: string
  StateRoot :: string
  TotalDifficulty :: NullString
  TransactionsRoot :: string
  WithdrawalsRoot :: NullString
  SealFields :: "string list option"
  Transactions :: "string list option"
  Uncles :: "string list option"
  BlockReward :: string
  UncleReward :: string

record Transaction =
  T_Hash :: string
  T_BlockNumber :: "64 word"
  T_From :: string
  T_To :: NullString
  T_Value :: string
  T_Nonce :: "64 word"
  T_GasPrice :: string
  T_GasLimit :: "64 word"
  T_GasUsed :: "64 word"
  T_Input :: string
  T_Status :: "64 word"
  T_Type :: "64 word"
  T_MaxFeePerGas :: NullString
  T_MaxPriorityFee :: NullString
  T_BlobGasUsed :: NullString
  T_BlobGasPrice :: NullString
  T_Error :: NullString

record Log =
  L_ID :: "64 word"
  L_TransactionHash :: string
  L_BlockNumber :: "64 word"
  L_Address :: string
  L_Topics :: "string list"
  L_Data :: string
  L_LogIndex :: "64 word"
  L_Removed :: bool

record StateChange =
  S_ID :: "64 word"
  S_BlockNumber :: "64 word"
  S_TransactionHash :: string
  S_Address :: string
  S_StorageKey :: NullString
  S_PrevValue :: string
  S_NewValue :: string
  S_ChangeType :: string

record AccessList =
  A_ID :: "64 word"
  A_TransactionHash :: string
  A_Address :: string
  A_StorageKey :: string

record Receipt =
  R_ID :: "64 word"
  R_BlockNumber :: "64 word"
  R_BlockHash :: string
  R_TransactionHash :: string
  R_TransactionIndex :: "64 word"
  R_ContractAddress :: string
  R_GasUsed :: "64 word"
  R_Status :: "64 word"

section \<open>Record derivation in OnHead\<close>

datatype panic = NilPointerDereference | IndexOutOfRange

datatype outcome = Returned | Panicked panic

definition deref :: "'a option \<Rightarrow> panic + 'a" where
  \<comment> \<open>\<open>*p\<close>, and a value-receiver method called through the pointer \<open>p\<close>\<close>
  "deref p = (case p of None \<Rightarrow> Inl NilPointerDereference | Some v \<Rightarrow> Inr v)"

text \<open>
  The block literal of \<open>IndexerPlugin.OnHead\<close> (plugin.go, lines 74 to 96). Its field
  expressions are evaluated before the struct is built: \<open>header.BaseFee.String()\<close> accepts a
  nil receiver, while \<open>*header.BlobGasUsed\<close>, \<open>*header.ExcessBlobGas\<close>,
  \<open>header.ParentBeaconRoot.String()\<close> and \<open>header.WithdrawalsHash.String()\<close> read through
  the pointer whatever the \<open>Valid\<close> flag beside them is going to say. Fields the literal
  leaves out keep their zero value.
\<close>

definition OnHead_block :: "Header \<Rightarrow> panic + Block" where
  "OnHead_block header =
     (case deref (hBlobGasUsed header) of Inl pk \<Rightarrow> Inl pk | Inr blobGasUsed \<Rightarrow>
      (case deref (hExcessBlobGas header) of Inl pk \<Rightarrow> Inl pk | Inr excessBlobGas \<Rightarrow>
       (case deref (hParentBeaconRoot header) of Inl pk \<Rightarrow> Inl pk | Inr parentBeaconRoot \<Rightarrow>
        (case deref (hWithdrawalsHash header) of Inl pk \<Rightarrow> Inl pk | Inr withdrawalsHash \<Rightarrow>
          Inr \<lparr>Number = Uint64 (hNumber header),
               Hash = hHash header,
               ParentHash = hParentHash header,
               Timestamp = sint (hTime header),
               Nonce = dec_bytes (hNonce header),
               BaseFeePerGas =
                 \<lparr>String = big_String (hBaseFee header), Valid = (hBaseFee header \<noteq> None)\<rparr>,
               BlobGasUsed =
                 \<lparr>String = dec (unat blobGasUsed), Valid = (hBlobGasUsed header \<noteq> None)\<rparr>,
               Difficulty = big_String (Some (hDifficulty header)),
               ExcessBlobGas =
                 \<lparr>String = dec (unat excessBlobGas), Valid = (hExcessBlobGas header \<noteq> None)\<rparr>,
               ExtraData = hex_bytes (hExtra header),
               GasLimit = dec (unat (hGasLimit header)),
               GasUsed = dec (unat (hGasUsed header)),
               LogsBloom = \<lparr>String = hex_bytes (hBloom header), Valid = True\<rparr>,
               Miner = hCoinbase header,
               MixHash = hMixDigest header,
               ParentBeaconBlockRoot =
                 \<lparr>String = parentBeaconRoot, Valid = (hParentBeaconRoot header \<noteq> None)\<rparr>,
               ReceiptsRoot = hReceiptHash header,
               Sha3Uncles = hUncleHash header,
               Size = [],
               StateRoot = hRoot header,
               TotalDifficulty = NullString_zero,
               TransactionsRoot = hTxHash header,
               WithdrawalsRoot =
                 \<lparr>String = withdrawalsHash, Valid = (hWithdrawalsHash header \<noteq> None)\<rparr>,
               SealFields = None,
               Transactions = None,
               Uncles = None,
               BlockReward = [],
               UncleReward = []\<rparr>))))"

text \<open>
  The block literal of the older \<open>GethPlugin.OnHead\<close>: of the optional fields it reads the
  base fee only, through the nil-safe \<open>String\<close>, so it is built for every header.
\<close>

definition GethPlugin_OnHead_block :: "Header \<Rightarrow> Block" where
  "GethPlugin_OnHead_block header =
     \<lparr>Number = Uint64 (hNumber header),
      Hash = hHash header,
      ParentHash = hParentHash header,
      Timestamp = sint (hTime header),
      Nonce = dec_bytes (hNonce header),
      BaseFeePerGas =
        \<lparr>String = big_String (hBaseFee header), Valid = (hBaseFee header \<noteq> None)\<rparr>,
      BlobGasUsed = NullString_zero,
      Difficulty = big_String (Some (hDifficulty header)),
      ExcessBlobGas = NullString_zero,
      ExtraData = hex_bytes (hExtra header),
      GasLimit = dec (unat (hGasLimit header)),
      GasUsed = dec (unat (hGasUsed header)),
      LogsBloom = NullString_zero,
      Miner = hCoinbase header,
      MixHash = hMixDigest header,
      ParentBeaconBlockRoot = NullString_zero,
      ReceiptsRoot = hReceiptHash header,
      Sha3Uncles = hUncleHash header,
      Size = ''0'',
      StateRoot = hRoot header,
      TotalDifficulty = NullString_zero,
      TransactionsRoot = hTxHash header,
      WithdrawalsRoot = NullString_zero,
      SealFields = Some [],
      Transactions = Some [],
      Uncles = Some [],
      BlockReward = ''0'',
      UncleReward = ''0''\<rparr>"

definition OnHead_receipt :: "Header \<Rightarrow> nat \<Rightarrow> ChainReceipt \<Rightarrow> Receipt" where
  "OnHead_receipt header i receipt =
     \<lparr>R_ID = 0,
      R_BlockNumber = Uint64 (hNumber header),
      R_BlockHash = hHash header,
      R_TransactionHash = cr_TxHash receipt,
      R_TransactionIndex = of_nat i,
      R_ContractAddress = cr_ContractAddress receipt,
      R_GasUsed = cr_GasUsed receipt,
      R_Status = cr_Status receipt\<rparr>"

definition OnHead_log :: "Header \<Rightarrow> string \<Rightarrow> ChainLog \<Rightarrow> Log" where
  "OnHead_log header txHash logEntry =
     \<lparr>L_ID = 0,
      L_TransactionHash = txHash,
      L_BlockNumber = Uint64 (hNumber header),
      L_Address = cl_Address logEntry,
      L_Topics = cl_Topics logEntry,
      L_Data = hex_bytes (cl_Data logEntry),
      L_LogIndex = cl_Index logEntry,
      L_Removed = False\<rparr>"

section \<open>The store behind sqlx\<close>

text \<open>
  The database is not part of the files at hand; what the statements of db.go require of
  it is modelled here. A table is the list of its rows in insertion order; a deleted row
  leaves \<open>None\<close> at its place, so the position of a row identifies it for as long as the
  table lives (it stands for the row identity of the store and for the \<open>BIGSERIAL\<close> ids,
  which the indexer never reads). The column \<open>finalized\<close>, which is not a field of the
  \<open>Block\<close> struct, is kept beside the struct.
\<close>

type_synonym 'a table = "'a option list"

record BlockRow =
  columns :: Block
  finalized :: bool

record Store =
  blocks :: "BlockRow table"
  transactions :: "Transaction table"
  logs :: "Log table"
  receipts :: "Receipt table"
  state_changes :: "StateChange table"
  access_lists :: "AccessList table"
  closed :: bool

text \<open>
  An open transaction (\<open>*sqlx.Tx\<close>) holds what it has changed and not yet committed: the
  positions of the committed rows it has deleted, per table, and the rows it has inserted.
  Its statements see the committed rows it has not deleted, followed by its own rows;
  what another open transaction holds is invisible to them, and no statement waits for
  another transaction.
\<close>

record Tx =
  del_blocks :: "nat list"
  del_transactions :: "nat list"
  del_logs :: "nat list"
  del_state_changes :: "nat list"
  del_access_lists :: "nat list"
  new_blocks :: "Block list"
  new_receipts :: "Receipt list"
  new_logs :: "Log list"
  failed :: bool
  finished :: bool

definition live :: "nat list \<Rightarrow> 'a table \<Rightarrow> (nat \<times> 'a) list" where
  \<comment> \<open>the rows of a table, with their positions, but for the positions \<open>ds\<close>\<close>
  "live ds tab =
     map (\<lambda>(i, r). (i, the r))
       (filter (\<lambda>(i, r). r \<noteq> None \<and> i \<notin> set ds) (enumerate 0 tab))"

definition rows :: "'a table \<Rightarrow> 'a list" where
  "rows tab = map snd (live [] tab)"

definition bury :: "nat list \<Rightarrow> 'a table \<Rightarrow> 'a table" where
  \<comment> \<open>the table with the rows at the positions \<open>ds\<close> deleted\<close>
  "bury ds tab = map (\<lambda>(i, r). if i \<in> set ds then None else r) (enumerate 0 tab)"

definition visible_blocks :: "Store \<Rightarrow> Tx \<Rightarrow> Block list" where
  "visible_blocks s tx = map (columns \<circ> snd) (live (del_blocks tx) (blocks s)) @ new_blocks tx"

definition visible_transactions :: "Store \<Rightarrow> Tx \<Rightarrow> Transaction list" where
  "visible_transactions s tx = map snd (live (del_transactions tx) (transactions s))"

definition visible_receipts :: "Store \<Rightarrow> Tx \<Rightarrow> Receipt list" where
  "visible_receipts s tx = rows (receipts s) @ new_receipts tx"

text \<open>
  The statements the source sends. What the store answers beyond the key constraints of
  \<open>CreateTablesSQL\<close> is a parameter: \<open>rejects\<close> says which statements the store (or the
  driver) refuses, for whatever reason (a foreign key, a value it cannot convert, a lost
  connection), and \<open>aborts\<close> says whether a refused statement dooms its transaction, as
  PostgreSQL does: later statements fail and the commit is turned into a rollback.
\<close>

datatype Query =
  DeleteAccessLists | DeleteStateChanges | DeleteLogs | DeleteTransactions | DeleteBlocks

datatype Statement =
  BeginTx
| CommitTx
| InsertBlockStmt Block
| InsertReceiptStmt Receipt
| InsertLogStmt Log
| DeleteStmt Query "64 word"
| AddFinalizedColumn
| SetFinalized "64 word"
| CloseDB

record Env =
  rejects :: "Statement \<Rightarrow> bool"
  aborts :: bool

datatype error = ErrRejected | ErrDuplicateKey | ErrFailedTx | ErrTxDone | ErrClosed

definition empty_tx :: Tx where
  "empty_tx =
     \<lparr>del_blocks = [], del_transactions = [], del_logs = [], del_state_changes = [],
      del_access_lists = [], new_blocks = [], new_receipts = [], new_logs = [],
      failed = False, finished = False\<rparr>"

definition Beginx :: "Env \<Rightarrow> Store \<Rightarrow> error + Tx" where
  "Beginx env s =
     (if closed s then Inl ErrClosed
      else if rejects env BeginTx then Inl ErrRejected
      else Inr empty_tx)"

definition exec_tx :: "Env \<Rightarrow> Tx \<Rightarrow> Statement \<Rightarrow> bool \<Rightarrow> Tx \<Rightarrow> error option \<times> Tx" where
  \<comment> \<open>\<open>tx.Exec\<close> and \<open>tx.NamedExec\<close>: \<open>dup\<close> says that the statement breaks a key
      constraint, \<open>tx'\<close> is the transaction once the statement has taken effect\<close>
  "exec_tx env tx st dup tx' =
     (if finished tx then (Some ErrTxDone, tx)
      else if aborts env \<and> failed tx then (Some ErrFailedTx, tx)
      else if dup then (Some ErrDuplicateKey, tx\<lparr>failed := True\<rparr>)
      else if rejects env st then (Some ErrRejected, tx\<lparr>failed := True\<rparr>)
      else (None, tx'))"

definition apply_tx :: "Tx \<Rightarrow> Store \<Rightarrow> Store" where
  "apply_tx tx s =
     s\<lparr>blocks := bury (del_blocks tx) (blocks s)
               @ map (\<lambda>b. Some \<lparr>columns = b, finalized = False\<rparr>) (new_blocks tx),
       transactions := bury (del_transactions tx) (transactions s),
       logs := bury (del_logs tx) (logs s) @ map Some (new_logs tx),
       receipts := receipts s @ map Some (new_receipts tx),
       state_changes := bury (del_state_changes tx) (state_changes s),
       access_lists := bury (del_access_lists tx) (access_lists s)\<rparr>"

definition Commit :: "Env \<Rightarrow> Store \<Rightarrow> Tx \<Rightarrow> error option \<times> Tx \<times> Store" where
  "Commit env s tx =
     (if finished tx then (Some ErrTxDone, tx, s)
      else if aborts env \<and> failed tx then (Some ErrFailedTx, tx\<lparr>finished := True\<rparr>, s)
      else if rejects env CommitTx then (Some ErrRejected, tx\<lparr>finished := True\<rparr>, s)
      else (None, tx\<lparr>finished := True\<rparr>, apply_tx tx s))"

definition Rollback :: "Store \<Rightarrow> Tx \<Rightarrow> error option \<times> Tx \<times> Store" where
  \<comment> \<open>what the transaction held is dropped with it; after a commit it is a no-op\<close>
  "Rollback s tx =
     (if finished tx then (Some ErrTxDone, tx, s) else (None, tx\<lparr>finished := True\<rparr>, s))"

section \<open>The operations of db.go\<close>

text \<open>
  \<open>blocks.number\<close> is the primary key and \<open>blocks.hash\<close> is unique; a new row has the
  column default \<open>finalized = false\<close>.
\<close>

definition InsertBlockWithTx :: "Env \<Rightarrow> Store \<Rightarrow> Tx \<Rightarrow> Block \<Rightarrow> error option \<times> Tx" where
  "InsertBlockWithTx env s tx block =
     exec_tx env tx (InsertBlockStmt block)
       (Number block \<in> set (map Number (visible_blocks s tx))
        \<or> Hash block \<in> set (map Hash (visible_blocks s tx)))
       (tx\<lparr>new_blocks := new_blocks tx @ [block]\<rparr>)"

text \<open>\<open>receipts\<close> has \<open>UNIQUE(transaction_hash)\<close>.\<close>

definition InsertReceiptWithTx :: "Env \<Rightarrow> Store \<Rightarrow> Tx \<Rightarrow> Receipt \<Rightarrow> error option \<times> Tx" where
  "InsertReceiptWithTx env s tx receipt =
     exec_tx env tx (InsertReceiptStmt receipt)
       (R_TransactionHash receipt \<in> set (map R_TransactionHash (visible_receipts s tx)))
       (tx\<lparr>new_receipts := new_receipts tx @ [receipt]\<rparr>)"

definition InsertLogWithTx :: "Env \<Rightarrow> Store \<Rightarrow> Tx \<Rightarrow> Log \<Rightarrow> error option \<times> Tx" where
  "InsertLogWithTx env s tx log =
     exec_tx env tx (InsertLogStmt log) False (tx\<lparr>new_logs := new_logs tx @ [log]\<rparr>)"

text \<open>
  The five statements of \<open>deleteQueries\<close>, in the order of the source. No statement names
  the table \<open>receipts\<close>, and none reads the column \<open>finalized\<close>.
\<close>

definition deleteQueries :: "Query list" where
  "deleteQueries =
     [DeleteAccessLists, DeleteStateChanges, DeleteLogs, DeleteTransactions, DeleteBlocks]"

definition matching :: "('a \<Rightarrow> bool) \<Rightarrow> nat list \<Rightarrow> 'a table \<Rightarrow> nat list" where
  \<comment> \<open>the positions of the rows a \<open>DELETE ... WHERE\<close> removes\<close>
  "matching P ds tab = map fst (filter (\<lambda>(i, r). P r) (live ds tab))"

fun delete_rows :: "Store \<Rightarrow> Query \<Rightarrow> 64 word \<Rightarrow> Tx \<Rightarrow> Tx" where
  "delete_rows s DeleteAccessLists n tx =
     tx\<lparr>del_access_lists := del_access_lists tx @
          matching (\<lambda>a. A_TransactionHash a \<in>
                      set (map T_Hash (filter (\<lambda>t. n \<le> T_BlockNumber t) (visible_transactions s tx))))
            (del_access_lists tx) (access_lists s)\<rparr>"
| "delete_rows s DeleteStateChanges n tx =
     tx\<lparr>del_state_changes := del_state_changes tx @
          matching (\<lambda>c. n \<le> S_BlockNumber c) (del_state_changes tx) (state_changes s)\<rparr>"
| "delete_rows s DeleteLogs n tx =
     tx\<lparr>del_logs := del_logs tx @ matching (\<lambda>l. n \<le> L_BlockNumber l) (del_logs tx) (logs s),
        new_logs := filter (\<lambda>l. \<not> n \<le> L_BlockNumber l) (new_logs tx)\<rparr>"
| "delete_rows s DeleteTransactions n tx =
     tx\<lparr>del_transactions := del_transactions tx @
          matching (\<lambda>t. n \<le> T_BlockNumber t) (del_transactions tx) (transactions s)\<rparr>"
| "delete_rows s DeleteBlocks n tx =
     tx\<lparr>del_blocks := del_blocks tx @
          matching (\<lambda>b. n \<le> Number (columns b)) (del_blocks tx) (blocks s),
        new_blocks := filter (\<lambda>b. \<not> n \<le> Number b) (new_blocks tx)\<rparr>"

fun exec_deletes :: "Env \<Rightarrow> Store \<Rightarrow> Tx \<Rightarrow> 64 word \<Rightarrow> Query list \<Rightarrow> error option \<times> Tx" where
  "exec_deletes env s tx n [] = (None, tx)"
| "exec_deletes env s tx n (query # queries) =
     (case exec_tx env tx (DeleteStmt query n) False (delete_rows s query n tx) of
        (Some err, tx') \<Rightarrow> (Some err, tx')
      | (None, tx') \<Rightarrow> exec_deletes env s tx' n queries)"

definition DeleteBlockAndDescendantsWithTx ::
  "Env \<Rightarrow> Store \<Rightarrow> Tx \<Rightarrow> 64 word \<Rightarrow> error option \<times> Tx" where
  "DeleteBlockAndDescendantsWithTx env s tx blockNumber =
     exec_deletes env s tx blockNumber deleteQueries"

text \<open>
  \<open>MarkBlockFinalized\<close> runs its two statements on the connection itself, outside any
  transaction, and drops the result of the \<open>UPDATE\<close>: the number of rows it changed is
  never read.
\<close>

definition set_finalized :: "64 word \<Rightarrow> BlockRow \<Rightarrow> BlockRow" where
  "set_finalized n r = (if Number (columns r) = n then r\<lparr>finalized := True\<rparr> else r)"

definition MarkBlockFinalized :: "Env \<Rightarrow> Store \<Rightarrow> 64 word \<Rightarrow> error option \<times> Store" where
  "MarkBlockFinalized env s blockNumber =
     (if closed s then (Some ErrClosed, s)
      else if rejects env AddFinalizedColumn then (Some ErrRejected, s)
      else if rejects env (SetFinalized blockNumber) then (Some ErrRejected, s)
      else (None, s\<lparr>blocks := map (map_option (set_finalized blockNumber)) (blocks s)\<rparr>))"

definition Close :: "Env \<Rightarrow> Store \<Rightarrow> error option \<times> Store" where
  \<comment> \<open>\<open>(*sql.DB).Close\<close>: closing a closed pool returns nil\<close>
  "Close env s =
     (if closed s then (None, s)
      else (if rejects env CloseDB then Some ErrRejected else None, s\<lparr>closed := True\<rparr>))"

section \<open>The indexer plugin of plugin.go\<close>

text \<open>
  Modelled from the spec: \<open>BlockChain\<close> is declared outside the files at hand; the plugin
  asks it for the receipts of a block hash only. \<open>IndexerDB\<close> is the handle on the one
  store; a plugin made by \<open>NewIndexerPlugin(nil)\<close> has none.
\<close>

type_synonym BlockChain = "Hash \<Rightarrow> ChainReceipt list"

datatype IndexerDB = Connection

record IndexerPlugin =
  db :: "IndexerDB option"
  chain :: "BlockChain option"

definition NewIndexerPlugin :: "IndexerDB option \<Rightarrow> IndexerPlugin" where
  "NewIndexerPlugin d =
     (case d of None \<Rightarrow> \<lparr>db = None, chain = None\<rparr>
      | Some idb \<Rightarrow> \<lparr>db = Some idb, chain = None\<rparr>)"

definition OnInit :: "IndexerPlugin \<Rightarrow> BlockChain \<Rightarrow> IndexerPlugin" where
  "OnInit p bc = (case db p of None \<Rightarrow> p | Some idb \<Rightarrow> p\<lparr>chain := Some bc\<rparr>)"

text \<open>
  The two loops of \<open>OnHead\<close>. A receipt whose insert fails is logged and skipped together
  with its logs (\<open>continue\<close>); a log whose insert fails is logged and skipped; the loop
  goes on with the same transaction either way.
\<close>

fun index_logs :: "Env \<Rightarrow> Store \<Rightarrow> Header \<Rightarrow> string \<Rightarrow> ChainLog list \<Rightarrow> Tx \<Rightarrow> Tx" where
  "index_logs env s header txHash [] tx = tx"
| "index_logs env s header txHash (logEntry # rest) tx =
     (case InsertLogWithTx env s tx (OnHead_log header txHash logEntry) of
        (err, tx') \<Rightarrow> index_logs env s header txHash rest tx')"

fun index_receipts :: "Env \<Rightarrow> Store \<Rightarrow> Header \<Rightarrow> nat \<Rightarrow> ChainReceipt list \<Rightarrow> Tx \<Rightarrow> Tx" where
  "index_receipts env s header i [] tx = tx"
| "index_receipts env s header i (receipt # rest) tx =
     (case InsertReceiptWithTx env s tx (OnHead_receipt header i receipt) of
        (Some err, tx') \<Rightarrow> index_receipts env s header (Suc i) rest tx'
      | (None, tx') \<Rightarrow>
          index_receipts env s header (Suc i) rest
            (index_logs env s header (cr_TxHash receipt) (cr_Logs receipt) tx'))"

text \<open>
  \<open>OnHead\<close> after \<open>defer tx.Rollback()\<close>: the outcome, the transaction and the store when
  the function body is left. A nil chain handle faults at \<open>p.chain.GetReceiptsByHash\<close>.
\<close>

definition OnHead_body ::
  "Env \<Rightarrow> IndexerPlugin \<Rightarrow> Header \<Rightarrow> Store \<Rightarrow> Tx \<Rightarrow> outcome \<times> Tx \<times> Store" where
  "OnHead_body env p header s tx =
     (case OnHead_block header of
        Inl pk \<Rightarrow> (Panicked pk, tx, s)
      | Inr block \<Rightarrow>
          (case InsertBlockWithTx env s tx block of
             (Some err, tx1) \<Rightarrow> (Returned, tx1, s)
           | (None, tx1) \<Rightarrow>
               (case chain p of
                  None \<Rightarrow> (Panicked NilPointerDereference, tx1, s)
                | Some bc \<Rightarrow>
                    (case Commit env s (index_receipts env s header 0 (bc (hHash header)) tx1) of
                       (Some err, tx2, s') \<Rightarrow> (Returned, tx2, s')
                     | (None, tx2, s') \<Rightarrow> (Returned, tx2, s')))))"

definition OnHead :: "Env \<Rightarrow> IndexerPlugin \<Rightarrow> Header \<Rightarrow> Store \<Rightarrow> outcome \<times> Store" where
  "OnHead env p header s =
     (case db p of
        None \<Rightarrow> (Returned, s)
      | Some idb \<Rightarrow>
          (case Beginx env s of
             Inl err \<Rightarrow> (Returned, s)
           | Inr tx \<Rightarrow>
               (case OnHead_body env p header s tx of
                  (out, tx', s') \<Rightarrow> (out, snd (snd (Rollback s' tx'))))))"

definition OnFinal :: "Env \<Rightarrow> IndexerPlugin \<Rightarrow> Header \<Rightarrow> Store \<Rightarrow> outcome \<times> Store" where
  "OnFinal env p header s =
     (case db p of
        None \<Rightarrow> (Returned, s)
      | Some idb \<Rightarrow>
          (case MarkBlockFinalized env s (Uint64 (hNumber header)) of
             (Some err, s') \<Rightarrow> (Returned, s')
           | (None, s') \<Rightarrow> (Returned, s')))"

text \<open>\<open>OnClose\<close> calls \<open>p.db.Close()\<close> at once; \<open>Close\<close> reads \<open>idb.db\<close>.\<close>

definition OnClose :: "Env \<Rightarrow> IndexerPlugin \<Rightarrow> Store \<Rightarrow> outcome \<times> Store" where
  "OnClose env p s =
     (case db p of
        None \<Rightarrow> (Panicked NilPointerDereference, s)
      | Some idb \<Rightarrow> (case Close env s of (err, s') \<Rightarrow> (Returned, s')))"

text \<open>
  \<open>OnReorg\<close>: the log call reads \<open>oldHeaders[0]\<close> and \<open>newHeaders[0]\<close>, then
  \<open>p.db.db.Beginx()\<close> reads through \<open>p.db\<close>. The old headers are deleted in the
  transaction \<open>tx\<close> of \<open>OnReorg\<close>; each new header is handed to \<open>p.OnHead\<close>, which begins
  and commits a transaction of its own on the store; \<open>tx\<close> is committed last.
\<close>

fun delete_old :: "Env \<Rightarrow> Store \<Rightarrow> Header list \<Rightarrow> Tx \<Rightarrow> error option \<times> Tx" where
  "delete_old env s [] tx = (None, tx)"
| "delete_old env s (header # rest) tx =
     (case DeleteBlockAndDescendantsWithTx env s tx (Uint64 (hNumber header)) of
        (Some err, tx') \<Rightarrow> (Some err, tx')
      | (None, tx') \<Rightarrow> delete_old env s rest tx')"

fun insert_new :: "Env \<Rightarrow> IndexerPlugin \<Rightarrow> Header list \<Rightarrow> Store \<Rightarrow> outcome \<times> Store" where
  "insert_new env p [] s = (Returned, s)"
| "insert_new env p (header # rest) s =
     (case OnHead env p header s of
        (Panicked pk, s') \<Rightarrow> (Panicked pk, s')
      | (Returned, s') \<Rightarrow> insert_new env p rest s')"

definition OnReorg_body ::
  "Env \<Rightarrow> IndexerPlugin \<Rightarrow> Header list \<Rightarrow> Header list \<Rightarrow> Store \<Rightarrow> Tx
     \<Rightarrow> outcome \<times> Tx \<times> Store" where
  "OnReorg_body env p oldHeaders newHeaders s tx =
     (case delete_old env s oldHeaders tx of
        (Some err, tx1) \<Rightarrow> (Returned, tx1, s)
      | (None, tx1) \<Rightarrow>
          (case insert_new env p newHeaders s of
             (Panicked pk, s1) \<Rightarrow> (Panicked pk, tx1, s1)
           | (Returned, s1) \<Rightarrow>
               (case Commit env s1 tx1 of
                  (Some err, tx2, s2) \<Rightarrow> (Returned, tx2, s2)
                | (None, tx2, s2) \<Rightarrow> (Returned, tx2, s2))))"

definition OnReorg ::
  "Env \<Rightarrow> IndexerPlugin \<Rightarrow> Header list \<Rightarrow> Header list \<Rightarrow> Store \<Rightarrow> outcome \<times> Store" where
  "OnReorg env p oldHeaders newHeaders s =
     (if oldHeaders = [] \<or> newHeaders = [] then (Panicked IndexOutOfRange, s)
      else
        (case db p of
           None \<Rightarrow> (Panicked NilPointerDereference, s)
         | Some idb \<Rightarrow>
             (case Beginx env s of
                Inl err \<Rightarrow> (Returned, s)
              | Inr tx \<Rightarrow>
                  (case OnReorg_body env p oldHeaders newHeaders s tx of
                     (out, tx', s') \<Rightarrow> (out, snd (snd (Rollback s' tx')))))))"

section \<open>The receipt cache of plugin.go\<close>

text \<open>
  Modelled from the spec: \<open>lru.Cache\<close> is declared outside the files at hand. It is the
  bounded cache of the spec with least-recently-used eviction: the entries are kept with
  the most recently used first, a hit moves its entry to the front, and adding a new key
  to a full cache drops the last entry. \<open>receiptsCache\<close> is created empty with room for
  32 entries. A \<open>types.Receipts\<close> value is a slice: \<open>None\<close> is the nil slice.
\<close>

type_synonym 'v Cache = "(Hash \<times> 'v) list"

definition capacity :: nat where
  "capacity = 32"

definition receiptsCache :: "'v Cache" where
  "receiptsCache = []"

definition cache_Get :: "'v Cache \<Rightarrow> Hash \<Rightarrow> 'v option \<times> 'v Cache" where
  "cache_Get c key =
     (case map_of c key of
        None \<Rightarrow> (None, c)
      | Some v \<Rightarrow> (Some v, (key, v) # filter (\<lambda>e. fst e \<noteq> key) c))"

definition cache_Add :: "'v Cache \<Rightarrow> Hash \<Rightarrow> 'v \<Rightarrow> 'v Cache" where
  "cache_Add c key v =
     (if key \<in> set (map fst c) then (key, v) # filter (\<lambda>e. fst e \<noteq> key) c
      else (key, v) # take (capacity - 1) c)"

definition GetBlockReceipts ::
  "(Hash \<Rightarrow> 'v option) \<Rightarrow> Hash \<Rightarrow> 64 word \<Rightarrow> 'v Cache \<Rightarrow> 'v option \<times> 'v Cache" where
  "GetBlockReceipts getReceipts hash number c =
     (case cache_Get c hash of
        (Some cached, c') \<Rightarrow> (Some cached, c')
      | (None, c') \<Rightarrow>
          (case getReceipts hash of
             None \<Rightarrow> (None, c')
           | Some fetched \<Rightarrow> (Some fetched, cache_Add c' hash fetched)))"

fun earlier_calls :: "(Hash \<Rightarrow> 'v option) \<Rightarrow> (Hash \<times> 64 word) list \<Rightarrow> 'v Cache \<Rightarrow> 'v Cache" where
  \<comment> \<open>the cache after a sequence of calls of \<open>GetBlockReceipts\<close>\<close>
  "earlier_calls getReceipts [] c = c"
| "earlier_calls getReceipts ((hash, number) # calls) c =
     earlier_calls getReceipts calls (snd (GetBlockReceipts getReceipts hash number c))"

definition agrees :: "(Hash \<Rightarrow> 'v option) \<Rightarrow> 'v Cache \<Rightarrow> bool" where
  \<comment> \<open>every cached entry is what the fetch function returns for its key\<close>
  "agrees getReceipts c = list_all (\<lambda>e. getReceipts (fst e) = Some (snd e)) c"

definition inserts :: "Tx \<Rightarrow> Block list \<times> Receipt list \<times> Log list" where
  \<comment> \<open>the rows a transaction has inserted\<close>
  "inserts tx = (new_blocks tx, new_receipts tx, new_logs tx)"

definition unflag :: "Store \<Rightarrow> Store" where
  \<comment> \<open>the same store with no block finalized\<close>
  "unflag s = s\<lparr>blocks := map (map_option (\<lambda>r. r\<lparr>finalized := False\<rparr>)) (blocks s)\<rparr>"

section \<open>Sample inputs\<close>

definition cancun_header :: "int \<Rightarrow> Hash \<Rightarrow> Hash \<Rightarrow> Header" where
  "cancun_header n h parent =
     \<lparr>hHash = h, hParentHash = parent, hUncleHash = ''0x1d'', hCoinbase = ''0xc0'',
      hRoot = ''0x5e'', hTxHash = ''0x7a'', hReceiptHash = ''0x4e'', hBloom = [0, 0],
      hDifficulty = 0, hNumber = n, hGasLimit = 30000000, hGasUsed = 21000,
      hTime = 1700000000, hExtra = [222, 173], hMixDigest = ''0x3c'',
      hNonce = [0, 0, 0, 0, 0, 0, 0, 0], hBaseFee = Some 7,
      hWithdrawalsHash = Some ''0x3d'', hBlobGasUsed = Some 0, hExcessBlobGas = Some 0,
      hParentBeaconRoot = Some ''0xbe''\<rparr>"

definition pre_cancun_header :: "int \<Rightarrow> Hash \<Rightarrow> Hash \<Rightarrow> Header" where
  \<comment> \<open>a header of a block before the blob-gas fields existed\<close>
  "pre_cancun_header n h parent =
     (cancun_header n h parent)
       \<lparr>hBlobGasUsed := None, hExcessBlobGas := None, hParentBeaconRoot := None\<rparr>"

definition empty_store :: Store where
  "empty_store =
     \<lparr>blocks = [], transactions = [], logs = [], receipts = [], state_changes = [],
      access_lists = [], closed = False\<rparr>"

definition stored_block :: "int \<Rightarrow> Hash \<Rightarrow> Hash \<Rightarrow> bool \<Rightarrow> BlockRow option" where
  "stored_block n h parent fin =
     Some \<lparr>columns = GethPlugin_OnHead_block (cancun_header n h parent), finalized = fin\<rparr>"

definition stored_transaction :: "string \<Rightarrow> 64 word \<Rightarrow> Transaction option" where
  "stored_transaction h n =
     Some \<lparr>T_Hash = h, T_BlockNumber = n, T_From = ''0xf0'', T_To = NullString_zero,
       T_Value = ''0'', T_Nonce = 0, T_GasPrice = ''7'', T_GasLimit = 21000, T_GasUsed = 21000,
       T_Input = ''0x'', T_Status = 1, T_Type = 2, T_MaxFeePerGas = NullString_zero,
       T_MaxPriorityFee = NullString_zero, T_BlobGasUsed = NullString_zero,
       T_BlobGasPrice = NullString_zero, T_Error = NullString_zero\<rparr>"

definition stored_receipt :: "string \<Rightarrow> 64 word \<Rightarrow> string \<Rightarrow> Receipt option" where
  "stored_receipt h n blockHash =
     Some \<lparr>R_ID = 0, R_BlockNumber = n, R_BlockHash = blockHash, R_TransactionHash = h,
       R_TransactionIndex = 0, R_ContractAddress = ''0x00'', R_GasUsed = 21000, R_Status = 1\<rparr>"

definition stored_log :: "string \<Rightarrow> 64 word \<Rightarrow> Log option" where
  "stored_log h n =
     Some \<lparr>L_ID = 0, L_TransactionHash = h, L_BlockNumber = n, L_Address = ''0xc1'',
       L_Topics = [''0x70''], L_Data = ''0x01'', L_LogIndex = 0, L_Removed = False\<rparr>"

definition accepting :: Env where
  \<comment> \<open>a store that refuses nothing but a duplicate key\<close>
  "accepting = \<lparr>rejects = (\<lambda>st. False), aborts = True\<rparr>"

definition refusing_block :: "64 word \<Rightarrow> Env" where
  \<comment> \<open>a store that fails the insert of the block numbered \<open>n\<close>\<close>
  "refusing_block n =
     \<lparr>rejects = (\<lambda>st. case st of InsertBlockStmt b \<Rightarrow> Number b = n | _ \<Rightarrow> False),
      aborts = True\<rparr>"

definition refusing_receipt :: "string \<Rightarrow> bool \<Rightarrow> Env" where
  \<comment> \<open>a store that fails the insert of the receipt of transaction \<open>h\<close>\<close>
  "refusing_receipt h ab =
     \<lparr>rejects =
        (\<lambda>st. case st of InsertReceiptStmt r \<Rightarrow> R_TransactionHash r = h | _ \<Rightarrow> False),
      aborts = ab\<rparr>"

definition no_receipts :: BlockChain where
  "no_receipts = (\<lambda>h. [])"

definition two_receipts :: BlockChain where
  "two_receipts = (\<lambda>h.
     [\<lparr>cr_TxHash = ''0xa1'', cr_ContractAddress = ''0x00'', cr_GasUsed = 21000, cr_Status = 1,
       cr_Logs = [\<lparr>cl_Address = ''0xc1'', cl_Topics = [''0x70''], cl_Data = [1],
                   cl_Index = 0\<rparr>]\<rparr>,
      \<lparr>cr_TxHash = ''0xa2'', cr_ContractAddress = ''0x00'', cr_GasUsed = 40000, cr_Status = 1,
       cr_Logs = [\<lparr>cl_Address = ''0xc2'', cl_Topics = [''0x70''], cl_Data = [2],
                   cl_Index = 1\<rparr>]\<rparr>])"

definition indexer :: "BlockChain \<Rightarrow> IndexerPlugin" where
  \<comment> \<open>a plugin with a database, after \<open>OnInit\<close>\<close>
  "indexer bc = OnInit (NewIndexerPlugin (Some Connection)) bc"

definition store_9 :: Store where
  "store_9 = empty_store\<lparr>blocks := [stored_block 9 ''0x09'' ''0x08'' False]\<rparr>"

definition store_final_10 :: Store where
  \<comment> \<open>blocks 9 and 10, block 10 finalized\<close>
  "store_final_10 =
     empty_store\<lparr>blocks := [stored_block 9 ''0x09'' ''0x08'' False,
                              stored_block 10 ''0x0a'' ''0x09'' True]\<rparr>"

definition store_10_indexed :: Store where
  \<comment> \<open>block 10 with one transaction, its receipt and its log\<close>
  "store_10_indexed =
     empty_store\<lparr>blocks := [stored_block 10 ''0x0a'' ''0x09'' False],
                   transactions := [stored_transaction ''0xa1'' 10],
                   logs := [stored_log ''0xa1'' 10],
                   receipts := [stored_receipt ''0xa1'' 10 ''0x0a'']\<rparr>"

definition delete_and_commit :: "Env \<Rightarrow> Store \<Rightarrow> 64 word \<Rightarrow> error option \<times> Store" where
  \<comment> \<open>the range delete in a transaction of its own, committed when it reports no error\<close>
  "delete_and_commit env s n =
     (case Beginx env s of
        Inl err \<Rightarrow> (Some err, s)
      | Inr tx \<Rightarrow>
          (case DeleteBlockAndDescendantsWithTx env s tx n of
             (Some err, tx') \<Rightarrow> (Some err, s)
           | (None, tx') \<Rightarrow> (case Commit env s tx' of (err, tx'', s') \<Rightarrow> (err, s'))))"

lemmas sample_defs =
  cancun_header_def pre_cancun_header_def empty_store_def stored_block_def
  stored_transaction_def stored_receipt_def stored_log_def accepting_def refusing_block_def
  refusing_receipt_def no_receipts_def two_receipts_def indexer_def store_9_def
  store_final_10_def store_10_indexed_def delete_and_commit_def

lemmas model_defs =
  OnReorg_def OnReorg_body_def OnHead_def OnHead_body_def OnHead_block_def OnFinal_def
  OnClose_def Close_def MarkBlockFinalized_def set_finalized_def Beginx_def Commit_def
  Rollback_def apply_tx_def exec_tx_def InsertBlockWithTx_def InsertReceiptWithTx_def
  InsertLogWithTx_def DeleteBlockAndDescendantsWithTx_def deleteQueries_def matching_def
  live_def rows_def bury_def visible_blocks_def visible_transactions_def visible_receipts_def
  empty_tx_def OnInit_def NewIndexerPlugin_def deref_def
  GethPlugin_OnHead_block_def OnHead_receipt_def OnHead_log_def Uint64_def NullString_zero_def
  enumerate_eq_zip

section \<open>Rows and transactions\<close>

lemma live_set:
  "(i, r) \<in> set (live ds tab) \<longleftrightarrow> i < length tab \<and> tab ! i = Some r \<and> i \<notin> set ds"
  by (force simp: live_def in_set_enumerate_eq image_iff)

lemma rows_set: "r \<in> set (rows tab) \<longleftrightarrow> Some r \<in> set tab"
proof -
  have "r \<in> set (rows tab) \<longleftrightarrow> (\<exists>i. (i, r) \<in> set (live [] tab))"
    by (force simp: rows_def)
  also have "\<dots> \<longleftrightarrow> (\<exists>i<length tab. tab ! i = Some r)"
    by (simp add: live_set)
  also have "\<dots> \<longleftrightarrow> Some r \<in> set tab"
    by (auto simp: in_set_conv_nth)
  finally show ?thesis .
qed

lemma live_append_deleted:
  "live (ds @ ms) tab = filter (\<lambda>(i, r). i \<notin> set ms) (live ds tab)"
  by (auto simp: live_def filter_map comp_def case_prod_unfold
      intro!: arg_cong [where f = "map _"] filter_cong)

text \<open>A \<open>DELETE ... WHERE P\<close> hides exactly the rows that satisfy \<open>P\<close>.\<close>

lemma live_matching:
  "live (ds @ matching P ds tab) tab = filter (\<lambda>(i, r). \<not> P r) (live ds tab)"
proof -
  have "i \<in> set (matching P ds tab) \<longleftrightarrow> P r" if "(i, r) \<in> set (live ds tab)" for i r
  proof
    assume "i \<in> set (matching P ds tab)"
    then obtain r' where "(i, r') \<in> set (live ds tab)" "P r'"
      by (auto simp: matching_def)
    with that show "P r" by (simp add: live_set)
  next
    assume "P r"
    with that show "i \<in> set (matching P ds tab)"
      by (force simp: matching_def)
  qed
  then show ?thesis
    unfolding live_append_deleted by (intro filter_cong) auto
qed

lemma exec_tx_accepted:
  "\<not> finished tx \<Longrightarrow> \<not> (aborts env \<and> failed tx) \<Longrightarrow> \<not> dup \<Longrightarrow> \<not> rejects env st
   \<Longrightarrow> exec_tx env tx st dup tx' = (None, tx')"
  by (simp add: exec_tx_def)

lemma exec_tx_kept:
  assumes "exec_tx env tx st dup tx' = (err, tx'')"
    and "new_blocks tx' = new_blocks tx" "finished tx' = finished tx"
  shows "new_blocks tx'' = new_blocks tx \<and> finished tx'' = finished tx"
  using assms by (auto simp: exec_tx_def split: if_splits)

lemma apply_tx_closed: "closed (apply_tx tx s) = closed s"
  by (simp add: apply_tx_def)

section \<open>The nil-database guard\<close>

text \<open>
  Claim C10. For a plugin constructed with a nil database handle, every call of \<open>OnHead\<close>
  and of \<open>OnFinal\<close> returns at once with the store unchanged and without a fault, whereas
  \<open>OnReorg\<close> and \<open>OnClose\<close> have no such check: they read through the nil handle and
  fault (\<open>OnReorg\<close> faults even earlier, on \<open>oldHeaders[0]\<close> or \<open>newHeaders[0]\<close>, when a
  header list is empty).
\<close>

theorem nil_database_guard:
  "OnHead env (NewIndexerPlugin None) header s = (Returned, s)
   \<and> OnFinal env (NewIndexerPlugin None) header s = (Returned, s)
   \<and> OnReorg env (NewIndexerPlugin None) oldHeaders newHeaders s =
       (Panicked (if oldHeaders = [] \<or> newHeaders = [] then IndexOutOfRange
                  else NilPointerDereference), s)
   \<and> OnClose env (NewIndexerPlugin None) s = (Panicked NilPointerDereference, s)"
  by (simp add: OnHead_def OnFinal_def OnReorg_def OnClose_def NewIndexerPlugin_def)

section \<open>Closing the plugin\<close>

text \<open>With a database, a second \<open>OnClose\<close> finds the pool closed and changes nothing.\<close>

lemma OnClose_again:
  "db p = Some idb \<Longrightarrow>
   OnClose env p (snd (OnClose env p s)) = (Returned, snd (OnClose env p s))"
  by (simp add: OnClose_def Close_def)

text \<open>
  Claim C8. \<open>onClose\<close> is said to be safe for every plugin instance, also one constructed
  without a database connection. \<open>NewIndexerPlugin(nil)\<close> builds such a plugin, and
  \<open>OnInit\<close>, \<open>OnHead\<close> and \<open>OnFinal\<close> return early for it; \<open>OnClose\<close> does not: it calls
  \<open>p.db.Close()\<close>, which reads through the nil handle and faults.
\<close>

theorem OnClose_without_database:
  "OnClose accepting (NewIndexerPlugin None) empty_store
     = (Panicked NilPointerDereference, empty_store)"
  by (simp add: OnClose_def NewIndexerPlugin_def)

section \<open>Delivering a head twice\<close>

lemma index_logs_kept:
  "new_blocks (index_logs env s header txHash ls tx) = new_blocks tx
   \<and> finished (index_logs env s header txHash ls tx) = finished tx"
proof (induction ls arbitrary: tx)
  case Nil
  then show ?case by simp
next
  case (Cons l ls)
  obtain err tx' where e: "InsertLogWithTx env s tx (OnHead_log header txHash l) = (err, tx')"
    by (cases "InsertLogWithTx env s tx (OnHead_log header txHash l)")
  then have "new_blocks tx' = new_blocks tx \<and> finished tx' = finished tx"
    unfolding InsertLogWithTx_def by (rule exec_tx_kept) simp_all
  with Cons.IH [of tx'] e show ?case by simp
qed

lemma index_receipts_kept:
  "new_blocks (index_receipts env s header i rs tx) = new_blocks tx
   \<and> finished (index_receipts env s header i rs tx) = finished tx"
proof (induction rs arbitrary: tx i)
  case Nil
  then show ?case by simp
next
  case (Cons r rs)
  obtain err tx' where e: "InsertReceiptWithTx env s tx (OnHead_receipt header i r) = (err, tx')"
    by (cases "InsertReceiptWithTx env s tx (OnHead_receipt header i r)")
  then have k: "new_blocks tx' = new_blocks tx \<and> finished tx' = finished tx"
    unfolding InsertReceiptWithTx_def by (rule exec_tx_kept) simp_all
  show ?case
  proof (cases err)
    case None
    with Cons.IH [of "Suc i" "index_logs env s header (cr_TxHash r) (cr_Logs r) tx'"] e k
    show ?thesis by (simp add: index_logs_kept)
  next
    case (Some a)
    with Cons.IH [of "Suc i" tx'] e k show ?thesis by simp
  qed
qed

text \<open>A block a transaction has inserted is visible to every later transaction.\<close>

lemma committed_block_visible:
  assumes "del_blocks tx0 = []" "block \<in> set (new_blocks tx)"
  shows "block \<in> set (visible_blocks (apply_tx tx s) tx0)"
proof -
  have "Some \<lparr>columns = block, finalized = False\<rparr> \<in> set (blocks (apply_tx tx s))"
    using assms(2) by (simp add: apply_tx_def)
  then have "\<lparr>columns = block, finalized = False\<rparr> \<in> set (rows (blocks (apply_tx tx s)))"
    by (simp add: rows_set)
  then have "block \<in> columns ` set (rows (blocks (apply_tx tx s)))"
    by force
  then show ?thesis
    using assms(1) by (simp add: visible_blocks_def rows_def image_comp)
qed

text \<open>
  The body of \<open>OnHead\<close> either leaves the store as it was or commits a transaction that
  holds the block of the header.
\<close>

lemma OnHead_body_committed:
  assumes "OnHead_body env p header s empty_tx = (out, tx', s')"
  shows "s' = s \<or> (\<exists>block tx. OnHead_block header = Inr block \<and> block \<in> set (new_blocks tx)
       \<and> s' = apply_tx tx s \<and> out = Returned)"
proof (cases "OnHead_block header")
  case (Inl pk)
  with assms show ?thesis by (simp add: OnHead_body_def)
next
  case (Inr block)
  obtain err tx1 where ins: "InsertBlockWithTx env s empty_tx block = (err, tx1)"
    by (cases "InsertBlockWithTx env s empty_tx block")
  show ?thesis
  proof (cases err)
    case (Some e)
    with assms Inr ins show ?thesis by (simp add: OnHead_body_def)
  next
    case None
    with ins have tx1: "tx1 = empty_tx\<lparr>new_blocks := new_blocks empty_tx @ [block]\<rparr>"
      by (auto simp: InsertBlockWithTx_def exec_tx_def split: if_splits)
    show ?thesis
    proof (cases "chain p")
      case cn: None
      with assms Inr ins None show ?thesis by (simp add: OnHead_body_def)
    next
      case (Some bc)
      let ?tx = "index_receipts env s header 0 (bc (hHash header)) tx1"
      have "block \<in> set (new_blocks ?tx)"
        by (simp add: index_receipts_kept tx1)
      moreover have "s' = s \<or> s' = apply_tx ?tx s" "out = Returned"
        using assms Inr ins None Some
        by (auto simp: OnHead_body_def Commit_def split: if_splits)
      ultimately show ?thesis using Inr by blast
    qed
  qed
qed

text \<open>
  Delivering a head a second time leaves the store exactly as the first delivery left it
  and ends as the first delivery ended, whichever statements the store refuses: when the
  first delivery committed the block, the second insert meets the primary key of
  \<open>blocks\<close>, is logged and rolled back, and no row is added twice.
\<close>

lemma OnHead_twice:
  "OnHead env p header (snd (OnHead env p header s)) = OnHead env p header s"
proof (cases "db p")
  case None
  then show ?thesis by (simp add: OnHead_def)
next
  case (Some idb)
  show ?thesis
  proof (cases "Beginx env s")
    case (Inl err)
    with Some show ?thesis by (simp add: OnHead_def)
  next
    case (Inr tx)
    then have tx: "tx = empty_tx" and ready: "\<not> closed s" "\<not> rejects env BeginTx"
      by (auto simp: Beginx_def split: if_splits)
    obtain out tx' s' where body: "OnHead_body env p header s empty_tx = (out, tx', s')"
      by (cases "OnHead_body env p header s empty_tx")
    have first: "OnHead env p header s = (out, s')"
      using Some Inr tx body by (simp add: OnHead_def Rollback_def)
    from OnHead_body_committed [OF body]
    show ?thesis
    proof
      assume "s' = s"
      with first show ?thesis by simp
    next
      assume "\<exists>block tx. OnHead_block header = Inr block \<and> block \<in> set (new_blocks tx)
         \<and> s' = apply_tx tx s \<and> out = Returned"
      then obtain block txc where c: "OnHead_block header = Inr block"
        "block \<in> set (new_blocks txc)" "s' = apply_tx txc s" "out = Returned"
        by blast
      have again: "Beginx env s' = Inr empty_tx"
        using ready c(3) by (simp add: Beginx_def apply_tx_closed)
      have "block \<in> set (visible_blocks s' empty_tx)"
        unfolding c(3) by (rule committed_block_visible [OF _ c(2)]) (simp add: empty_tx_def)
      then have "Number block \<in> set (map Number (visible_blocks s' empty_tx))"
        by simp
      then have "InsertBlockWithTx env s' empty_tx block =
          (Some ErrDuplicateKey, empty_tx\<lparr>failed := True\<rparr>)"
        by (simp add: InsertBlockWithTx_def exec_tx_def empty_tx_def)
      then have "OnHead env p header s' = (Returned, s')"
        using Some again c(1) by (simp add: OnHead_def OnHead_body_def Rollback_def)
      with first c(4) show ?thesis by simp
    qed
  qed
qed

text \<open>
  Where the block literal is built and \<open>OnInit\<close> has set the chain, \<open>OnHead\<close> returns
  to its caller: a refused statement is logged, never raised.
\<close>

lemma OnHead_returns:
  "OnHead_block header = Inr block \<Longrightarrow> chain p = Some bc \<Longrightarrow>
   fst (OnHead env p header s) = Returned"
  by (simp add: OnHead_def OnHead_body_def Rollback_def
      split: option.splits sum.splits prod.splits)

text \<open>
  Claim C5. Head application is said to be idempotent for every header, the second
  delivery changing nothing and surfacing no error to the caller. The store is indeed left
  as the first delivery left it, but an error does reach the caller: for a header from
  before the blob-gas fields, the second delivery faults in the block literal with a nil
  pointer dereference, as the first one did.
\<close>

theorem OnHead_second_delivery_faults:
  "OnHead accepting (indexer no_receipts) (pre_cancun_header 10 ''0x0a'' ''0x09'')
     (snd (OnHead accepting (indexer no_receipts) (pre_cancun_header 10 ''0x0a'' ''0x09'')
        empty_store))
   = (Panicked NilPointerDereference, empty_store)"
  by (simp add: sample_defs model_defs)

section \<open>The receipt cache\<close>

lemma agrees_Get:
  assumes "agrees g c"
  shows "agrees g (snd (cache_Get c key))"
    and "fst (cache_Get c key) = Some v \<Longrightarrow> g key = Some v"
proof -
  have found: "g key = Some v" if "map_of c key = Some v" for v
  proof -
    from that have "(key, v) \<in> set c" by (rule map_of_SomeD)
    with assms show ?thesis by (auto simp: agrees_def list_all_iff)
  qed
  show "agrees g (snd (cache_Get c key))"
    using assms found
    by (auto simp: agrees_def cache_Get_def list_all_iff split: option.splits)
  show "g key = Some v" if "fst (cache_Get c key) = Some v"
    using that found by (simp add: cache_Get_def split: option.splits)
qed

lemma agrees_Add:
  assumes "agrees g c" "g key = Some v"
  shows "agrees g (cache_Add c key v)"
  using assms by (auto simp: agrees_def cache_Add_def list_all_iff dest: in_set_takeD)

lemma agrees_GetBlockReceipts:
  assumes "agrees g c"
  shows "fst (GetBlockReceipts g hash number c) = g hash"
    and "agrees g (snd (GetBlockReceipts g hash number c))"
proof -
  obtain hit c' where get: "cache_Get c hash = (hit, c')"
    by (cases "cache_Get c hash")
  from agrees_Get [OF assms, of hash] get
  have c': "agrees g c'" and hit: "\<And>v. hit = Some v \<Longrightarrow> g hash = Some v"
    by simp_all
  show "fst (GetBlockReceipts g hash number c) = g hash"
    using get hit by (cases hit; cases "g hash") (simp_all add: GetBlockReceipts_def)
  show "agrees g (snd (GetBlockReceipts g hash number c))"
    using get c' by (cases hit; cases "g hash") (simp_all add: GetBlockReceipts_def agrees_Add)
qed

lemma agrees_earlier_calls:
  "agrees g c \<Longrightarrow> agrees g (earlier_calls g calls c)"
  by (induction g calls c rule: earlier_calls.induct) (simp_all add: agrees_GetBlockReceipts)

text \<open>
  Claim C9. Cache hits are never stale: the fetch function being a function of the hash
  (it returns the same receipts for a hash on every call), \<open>GetBlockReceipts\<close> returns
  exactly what the fetch function returns for the hash, after every sequence of earlier
  calls on the cache, which starts empty; whether the answer comes from the cache or from
  a fresh fetch.
\<close>

theorem GetBlockReceipts_never_stale:
  "fst (GetBlockReceipts getReceipts hash number
         (earlier_calls getReceipts calls receiptsCache)) = getReceipts hash"
proof -
  have "agrees getReceipts receiptsCache"
    by (simp add: agrees_def receiptsCache_def)
  then have "agrees getReceipts (earlier_calls getReceipts calls receiptsCache)"
    by (rule agrees_earlier_calls)
  then show ?thesis by (rule agrees_GetBlockReceipts)
qed

section \<open>The range delete\<close>

lemma delete_rows_flags:
  "finished (delete_rows s q n tx) = finished tx" "failed (delete_rows s q n tx) = failed tx"
  by (cases q; simp)+

lemma delete_rows_block_rows:
  "live (del_blocks (delete_rows s q n tx)) (blocks s) =
     (if q = DeleteBlocks
      then filter (\<lambda>(i, r). \<not> n \<le> Number (columns r)) (live (del_blocks tx) (blocks s))
      else live (del_blocks tx) (blocks s))"
  by (cases q) (simp_all add: live_matching)

lemma delete_rows_new_blocks:
  "new_blocks (delete_rows s q n tx) =
     (if q = DeleteBlocks then filter (\<lambda>b. \<not> n \<le> Number b) (new_blocks tx) else new_blocks tx)"
  by (cases q) simp_all

lemma exec_deletes_accepted:
  assumes "\<not> finished tx" "\<not> (aborts env \<and> failed tx)"
    and "list_all (\<lambda>q. \<not> rejects env (DeleteStmt q n)) qs"
  shows "fst (exec_deletes env s tx n qs) = None
     \<and> live (del_blocks (snd (exec_deletes env s tx n qs))) (blocks s) =
         (if DeleteBlocks \<in> set qs
          then filter (\<lambda>(i, r). \<not> n \<le> Number (columns r)) (live (del_blocks tx) (blocks s))
          else live (del_blocks tx) (blocks s))
     \<and> new_blocks (snd (exec_deletes env s tx n qs)) =
         (if DeleteBlocks \<in> set qs then filter (\<lambda>b. \<not> n \<le> Number b) (new_blocks tx)
          else new_blocks tx)"
  using assms
proof (induction qs arbitrary: tx)
  case Nil
  then show ?case by simp
next
  case (Cons q qs)
  let ?tx' = "delete_rows s q n tx"
  have step: "exec_tx env tx (DeleteStmt q n) False ?tx' = (None, ?tx')"
    using Cons.prems by (simp add: exec_tx_accepted)
  have "\<not> finished ?tx'" "\<not> (aborts env \<and> failed ?tx')"
    using Cons.prems by (simp_all add: delete_rows_flags)
  from Cons.IH [OF this] Cons.prems(3)
  have IH: "fst (exec_deletes env s ?tx' n qs) = None"
    "live (del_blocks (snd (exec_deletes env s ?tx' n qs))) (blocks s) =
       (if DeleteBlocks \<in> set qs
        then filter (\<lambda>(i, r). \<not> n \<le> Number (columns r)) (live (del_blocks ?tx') (blocks s))
        else live (del_blocks ?tx') (blocks s))"
    "new_blocks (snd (exec_deletes env s ?tx' n qs)) =
       (if DeleteBlocks \<in> set qs then filter (\<lambda>b. \<not> n \<le> Number b) (new_blocks ?tx')
        else new_blocks ?tx')"
    by simp_all
  have unfold: "exec_deletes env s tx n (q # qs) = exec_deletes env s ?tx' n qs"
    by (simp add: step del: delete_rows.simps)
  show ?case
    unfolding unfold IH delete_rows_block_rows delete_rows_new_blocks
    by (simp add: case_prod_unfold)
qed

text \<open>
  Neither the range delete nor \<open>OnReorg\<close> reads the column \<open>finalized\<close>: on a store
  with finalized blocks each does what it does on the same store with no block finalized.
\<close>

lemma live_map:
  "live ds (map (map_option f) tab) = map (\<lambda>(i, r). (i, f r)) (live ds tab)"
proof -
  have "map (\<lambda>(i, r). (i, the r))
          (filter (\<lambda>(i, r). r \<noteq> None \<and> i \<notin> set ds) (enumerate n (map (map_option f) tab)))
      = map (\<lambda>(i, r). (i, f r))
          (map (\<lambda>(i, r). (i, the r))
            (filter (\<lambda>(i, r). r \<noteq> None \<and> i \<notin> set ds) (enumerate n tab)))" for n
    by (induction tab arbitrary: n) auto
  then show ?thesis by (simp add: live_def)
qed

lemma bury_map: "bury ds (map (map_option f) tab) = map (map_option f) (bury ds tab)"
proof -
  have "map (\<lambda>(i, r). if i \<in> set ds then None else r) (enumerate n (map (map_option f) tab))
      = map (map_option f) (map (\<lambda>(i, r). if i \<in> set ds then None else r) (enumerate n tab))" for n
    by (induction tab arbitrary: n) auto
  then show ?thesis by (simp add: bury_def)
qed

lemma unflag_fields:
  "transactions (unflag s) = transactions s" "logs (unflag s) = logs s"
  "receipts (unflag s) = receipts s" "state_changes (unflag s) = state_changes s"
  "access_lists (unflag s) = access_lists s" "closed (unflag s) = closed s"
  by (simp_all add: unflag_def)

lemma unflag_visible_blocks: "visible_blocks (unflag s) tx = visible_blocks s tx"
  by (simp add: visible_blocks_def unflag_def live_map comp_def case_prod_unfold)

lemma unflag_matching:
  "matching (\<lambda>b. n \<le> Number (columns b)) ds (blocks (unflag s))
     = matching (\<lambda>b. n \<le> Number (columns b)) ds (blocks s)"
  by (simp add: matching_def unflag_def live_map filter_map comp_def case_prod_unfold)

lemma unflag_delete_rows: "delete_rows (unflag s) q n tx = delete_rows s q n tx"
  by (cases q) (simp_all add: unflag_fields unflag_matching visible_transactions_def)

lemma unflag_exec_deletes: "exec_deletes env (unflag s) tx n qs = exec_deletes env s tx n qs"
  by (induction qs arbitrary: tx)
    (simp_all add: unflag_delete_rows del: delete_rows.simps split: prod.splits option.splits)

lemma unflag_delete:
  "DeleteBlockAndDescendantsWithTx env (unflag s) tx n = DeleteBlockAndDescendantsWithTx env s tx n"
  by (simp add: DeleteBlockAndDescendantsWithTx_def unflag_exec_deletes)

lemma unflag_delete_old: "delete_old env (unflag s) hs tx = delete_old env s hs tx"
  by (induction hs arbitrary: tx) (simp_all add: unflag_delete split: prod.splits option.splits)

lemma unflag_inserts:
  "InsertBlockWithTx env (unflag s) tx b = InsertBlockWithTx env s tx b"
  "InsertReceiptWithTx env (unflag s) tx r = InsertReceiptWithTx env s tx r"
  "InsertLogWithTx env (unflag s) tx l = InsertLogWithTx env s tx l"
  by (simp_all add: InsertBlockWithTx_def InsertReceiptWithTx_def InsertLogWithTx_def
      unflag_visible_blocks visible_receipts_def unflag_fields)

lemma unflag_index_logs:
  "index_logs env (unflag s) header txHash ls tx = index_logs env s header txHash ls tx"
  by (induction ls arbitrary: tx) (simp_all add: unflag_inserts split: prod.splits)

lemma unflag_index_receipts:
  "index_receipts env (unflag s) header i rs tx = index_receipts env s header i rs tx"
  by (induction rs arbitrary: tx i)
    (simp_all add: unflag_inserts unflag_index_logs split: prod.splits option.splits)

lemma unflag_apply_tx: "apply_tx tx (unflag s) = unflag (apply_tx tx s)"
  by (simp add: apply_tx_def unflag_def bury_map comp_def)

lemma unflag_Commit:
  "Commit env (unflag s) tx = (case Commit env s tx of (err, tx', s') \<Rightarrow> (err, tx', unflag s'))"
  by (simp add: Commit_def unflag_apply_tx)

lemma unflag_OnHead:
  "OnHead env p header (unflag s) = (case OnHead env p header s of (out, s') \<Rightarrow> (out, unflag s'))"
  by (simp add: OnHead_def OnHead_body_def Beginx_def unflag_fields unflag_inserts
      unflag_index_receipts unflag_Commit Rollback_def
      split: option.splits sum.splits prod.splits)

lemma unflag_insert_new:
  "insert_new env p hs (unflag s) = (case insert_new env p hs s of (out, s') \<Rightarrow> (out, unflag s'))"
  by (induction hs arbitrary: s) (simp_all add: unflag_OnHead split: prod.splits outcome.splits)

lemma unflag_OnReorg:
  "OnReorg env p oldHeaders newHeaders (unflag s)
     = (case OnReorg env p oldHeaders newHeaders s of (out, s') \<Rightarrow> (out, unflag s'))"
  by (simp add: OnReorg_def OnReorg_body_def Beginx_def unflag_fields unflag_delete_old
      unflag_insert_new unflag_Commit Rollback_def
      split: option.splits sum.splits prod.splits outcome.splits)

text \<open>
  Claim C2, as amended. The range delete never reads the \<open>finalized\<close> column: for every
  \<open>fromNumber\<close>, when the store accepts its five statements it reports no error and
  hides from its transaction exactly the block rows numbered \<open>fromNumber\<close> or above,
  finalized or not, the rows below staying as they are, flag included. There is no
  \<open>FinalizedBlockProtected\<close> failure: on a store with finalized blocks the range delete
  and \<open>OnReorg\<close> report and write what they report and write on the same store with no
  block finalized.
\<close>

theorem range_delete_ignores_finalized:
  assumes "\<not> finished tx" "\<not> (aborts env \<and> failed tx)"
    and "list_all (\<lambda>q. \<not> rejects env (DeleteStmt q n)) deleteQueries"
  shows "fst (DeleteBlockAndDescendantsWithTx env s tx n) = None
     \<and> live (del_blocks (snd (DeleteBlockAndDescendantsWithTx env s tx n))) (blocks s) =
         filter (\<lambda>(i, r). \<not> n \<le> Number (columns r)) (live (del_blocks tx) (blocks s))
     \<and> new_blocks (snd (DeleteBlockAndDescendantsWithTx env s tx n)) =
         filter (\<lambda>b. \<not> n \<le> Number b) (new_blocks tx)
     \<and> DeleteBlockAndDescendantsWithTx env (unflag s) tx n
         = DeleteBlockAndDescendantsWithTx env s tx n
     \<and> OnReorg env p oldHeaders newHeaders (unflag s)
         = (fst (OnReorg env p oldHeaders newHeaders s),
            unflag (snd (OnReorg env p oldHeaders newHeaders s)))"
proof -
  have "OnReorg env p oldHeaders newHeaders (unflag s)
      = (fst (OnReorg env p oldHeaders newHeaders s),
         unflag (snd (OnReorg env p oldHeaders newHeaders s)))"
    by (simp add: unflag_OnReorg case_prod_unfold)
  moreover have "DeleteBlocks \<in> set deleteQueries"
    by (simp add: deleteQueries_def)
  ultimately show ?thesis
    using exec_deletes_accepted [OF assms, of s]
    unfolding DeleteBlockAndDescendantsWithTx_def unflag_exec_deletes
    by simp
qed

theorem range_delete_ignores_finalized_witness:
  "\<not> finished empty_tx \<and> \<not> (aborts accepting \<and> failed empty_tx)
   \<and> list_all (\<lambda>q. \<not> rejects accepting (DeleteStmt q 10)) deleteQueries
   \<and> fst (DeleteBlockAndDescendantsWithTx accepting store_final_10 empty_tx 10) = None
   \<and> map (\<lambda>(i, r). (i, Number (columns r), finalized r))
       (live (del_blocks (snd (DeleteBlockAndDescendantsWithTx accepting store_final_10 empty_tx 10)))
          (blocks store_final_10)) = [(0, 9, False)]"
proof -
  have h: "\<not> finished empty_tx" "\<not> (aborts accepting \<and> failed empty_tx)"
    "list_all (\<lambda>q. \<not> rejects accepting (DeleteStmt q 10)) deleteQueries"
    by (simp_all add: empty_tx_def accepting_def deleteQueries_def)
  have "live (del_blocks empty_tx) (blocks store_final_10)
      = [(0, the (stored_block 9 ''0x09'' ''0x08'' False)), (1, the (stored_block 10 ''0x0a'' ''0x09'' True))]"
    by (simp add: live_def empty_tx_def store_final_10_def empty_store_def stored_block_def enumerate_eq_zip)
  with range_delete_ignores_finalized [OF h, where s = store_final_10] h
  show ?thesis
    by (simp add: stored_block_def GethPlugin_OnHead_block_def cancun_header_def Uint64_def)
qed

text \<open>
  The claim as the spec states it fails: with block 10 finalized, the range delete from 10
  reports no error, and an \<open>OnReorg\<close> whose old headers name block 10 returns with the
  finalized row deleted.
\<close>

theorem finalized_block_deleted:
  "map (\<lambda>r. (Number (columns r), finalized r)) (rows (blocks store_final_10))
     = [(9, False), (10, True)]
   \<and> fst (DeleteBlockAndDescendantsWithTx accepting store_final_10 empty_tx 10) = None
   \<and> fst (OnReorg accepting (indexer no_receipts) [cancun_header 10 ''0x0a'' ''0x09'']
        [cancun_header 11 ''0x1b'' ''0x1a''] store_final_10) = Returned
   \<and> map (map_option (\<lambda>r. (Number (columns r), Hash (columns r), finalized r)))
       (blocks (snd (OnReorg accepting (indexer no_receipts) [cancun_header 10 ''0x0a'' ''0x09'']
          [cancun_header 11 ''0x1b'' ''0x1a''] store_final_10)))
     = [Some (9, ''0x09'', False), None, Some (11, ''0x1b'', False)]"
  by (simp add: sample_defs model_defs)

text \<open>
  Claim C3. The range delete is said to remove every row numbered \<open>fromNumber\<close> or above,
  receipts included, and to leave no orphan behind. \<open>deleteQueries\<close> has no statement for
  the table \<open>receipts\<close>: with block 10, one transaction, its log and its receipt indexed,
  the delete from 10 reports no error and removes the block, the transaction and the log,
  while the receipt of block 10 stays, its transaction and its block gone.
\<close>

theorem range_delete_leaves_receipts:
  "fst (delete_and_commit accepting store_10_indexed 10) = None
   \<and> rows (blocks (snd (delete_and_commit accepting store_10_indexed 10))) = []
   \<and> rows (transactions (snd (delete_and_commit accepting store_10_indexed 10))) = []
   \<and> rows (logs (snd (delete_and_commit accepting store_10_indexed 10))) = []
   \<and> map (\<lambda>r. (R_BlockNumber r, R_TransactionHash r))
        (rows (receipts (snd (delete_and_commit accepting store_10_indexed 10))))
      = [(10, ''0xa1'')]"
  by (simp add: sample_defs model_defs)

section \<open>Finalization\<close>

lemma set_finalized_idem: "set_finalized n (set_finalized n r) = set_finalized n r"
  by (simp add: set_finalized_def)

text \<open>
  Claim C7, as amended. When the store is open and accepts the two statements,
  \<open>MarkBlockFinalized\<close> reports no error, sets the flag on exactly the block rows with the
  given number and changes nothing else (no column of a block, no other table); doing it
  again changes nothing; and when no block has the number, the store is left as it was and
  no error is reported: there is no \<open>NotFound\<close> failure.
\<close>

theorem MarkBlockFinalized_sets_flag:
  assumes "\<not> closed s" "\<not> rejects env AddFinalizedColumn" "\<not> rejects env (SetFinalized n)"
  shows "fst (MarkBlockFinalized env s n) = None
     \<and> map (map_option columns) (blocks (snd (MarkBlockFinalized env s n)))
         = map (map_option columns) (blocks s)
     \<and> map (map_option finalized) (blocks (snd (MarkBlockFinalized env s n)))
         = map (map_option (\<lambda>r. finalized r \<or> Number (columns r) = n)) (blocks s)
     \<and> (snd (MarkBlockFinalized env s n))\<lparr>blocks := blocks s\<rparr> = s
     \<and> MarkBlockFinalized env (snd (MarkBlockFinalized env s n)) n = MarkBlockFinalized env s n
     \<and> (n \<notin> set (map (Number \<circ> columns) (rows (blocks s)))
          \<longrightarrow> MarkBlockFinalized env s n = (None, s))"
proof -
  have same: "map (map_option (set_finalized n)) tab = tab"
    if "n \<notin> set (map (Number \<circ> columns) (rows tab))" for tab
  proof (rule map_idI)
    fix x assume x: "x \<in> set tab"
    show "map_option (set_finalized n) x = x"
    proof (cases x)
      case (Some r)
      with x have "r \<in> set (rows tab)" by (simp add: rows_set)
      with that have "Number (columns r) \<noteq> n" by auto
      with Some show ?thesis by (simp add: set_finalized_def)
    qed simp
  qed
  have cols: "map_option columns (map_option (set_finalized n) x) = map_option columns x" for x
    by (cases x) (simp_all add: set_finalized_def)
  have fin: "map_option finalized (map_option (set_finalized n) x)
    = map_option (\<lambda>r. finalized r \<or> Number (columns r) = n) x" for x
    by (cases x) (simp_all add: set_finalized_def)
  have idem: "map_option (set_finalized n) (map_option (set_finalized n) x)
    = map_option (set_finalized n) x" for x
    by (cases x) (simp_all add: set_finalized_idem)
  show ?thesis
    using assms same [of "blocks s"]
    by (simp add: MarkBlockFinalized_def cols fin idem comp_def)
qed

theorem MarkBlockFinalized_sets_flag_witness:
  "\<not> closed store_9 \<and> \<not> rejects accepting AddFinalizedColumn \<and> \<not> rejects accepting (SetFinalized 9)
   \<and> fst (MarkBlockFinalized accepting store_9 9) = None
   \<and> map (map_option finalized) (blocks (snd (MarkBlockFinalized accepting store_9 9))) = [Some True]
   \<and> MarkBlockFinalized accepting (snd (MarkBlockFinalized accepting store_9 9)) 9
       = MarkBlockFinalized accepting store_9 9
   \<and> 10 \<notin> set (map (Number \<circ> columns) (rows (blocks store_9)))
   \<and> MarkBlockFinalized accepting store_9 10 = (None, store_9)"
proof -
  have h: "\<not> closed store_9" "\<not> rejects accepting AddFinalizedColumn"
    "\<not> rejects accepting (SetFinalized n)" for n
    by (simp_all add: store_9_def empty_store_def accepting_def)
  have absent: "10 \<notin> set (map (Number \<circ> columns) (rows (blocks store_9)))"
    by (simp add: sample_defs model_defs)
  have nine: "map (map_option (\<lambda>r. finalized r \<or> Number (columns r) = 9)) (blocks store_9) = [Some True]"
    by (simp add: sample_defs model_defs)
  from MarkBlockFinalized_sets_flag [OF h(1) h(2) h(3), of 9]
    MarkBlockFinalized_sets_flag [OF h(1) h(2) h(3), of 10] h absent nine
  show ?thesis by simp
qed

text \<open>
  The claim as the spec states it fails: finalizing block 5 in a store that holds no block
  reports no error.
\<close>

theorem MarkBlockFinalized_absent_block:
  "rows (blocks empty_store) = []
   \<and> MarkBlockFinalized accepting empty_store 5 = (None, empty_store)"
  by (simp add: sample_defs model_defs)

section \<open>The head path\<close>

lemma OnHead_block_faults:
  "OnHead_block header = Inl NilPointerDereference \<longleftrightarrow>
     hBlobGasUsed header = None \<or> hExcessBlobGas header = None
     \<or> hParentBeaconRoot header = None \<or> hWithdrawalsHash header = None"
  by (auto simp: OnHead_block_def deref_def split: option.splits)

text \<open>
  Where the block is built, a missing base fee is recorded as absent and a base fee of
  zero as present; the older plugin builds its block for every header.
\<close>

lemma OnHead_block_base_fee:
  "OnHead_block header = Inr block \<Longrightarrow>
   Valid (BaseFeePerGas block) = (hBaseFee header \<noteq> None)"
  by (auto simp: OnHead_block_def deref_def split: option.splits)

lemma GethPlugin_OnHead_block_base_fee:
  "Valid (BaseFeePerGas (GethPlugin_OnHead_block header)) = (hBaseFee header \<noteq> None)"
  by (simp add: GethPlugin_OnHead_block_def)

text \<open>
  Claim C6. The derivation of the block record is said to complete without fault for
  every header, absent optional fields included. The block literal of
  \<open>IndexerPlugin.OnHead\<close> evaluates \<open>*header.BlobGasUsed\<close> before it records whether the
  pointer is nil: for a header from before the blob-gas fields, \<open>OnHead\<close> on a plugin with
  a database faults with a nil pointer dereference and writes nothing.
\<close>

theorem OnHead_block_nil_blob_gas:
  "OnHead accepting (indexer no_receipts) (pre_cancun_header 10 ''0x0a'' ''0x09'') empty_store
     = (Panicked NilPointerDereference, empty_store)"
  by (simp add: sample_defs model_defs)

text \<open>
  Claim C4. \<open>OnHead\<close> is said to roll the whole transaction back on any storage failure
  during the insert sequence and never to go on inserting and committing after a failed
  insert. A failed block insert does return; a failed receipt insert is followed by
  \<open>continue\<close>: with two receipts in block 10 and a store that fails the insert of the first
  one (and keeps the transaction usable), \<open>OnHead\<close> goes on, inserts the second receipt
  and its log and commits: block 10 is committed with one of its two receipts.
\<close>

theorem OnHead_commits_partial_block:
  "map cr_TxHash (two_receipts ''0x0a'') = [''0xa1'', ''0xa2'']
   \<and> map (Hash \<circ> columns)
        (rows (blocks (snd (OnHead (refusing_receipt ''0xa1'' False) (indexer two_receipts)
           (cancun_header 10 ''0x0a'' ''0x09'') empty_store)))) = [''0x0a'']
   \<and> map R_TransactionHash
        (rows (receipts (snd (OnHead (refusing_receipt ''0xa1'' False) (indexer two_receipts)
           (cancun_header 10 ''0x0a'' ''0x09'') empty_store)))) = [''0xa2'']
   \<and> map L_TransactionHash
        (rows (logs (snd (OnHead (refusing_receipt ''0xa1'' False) (indexer two_receipts)
           (cancun_header 10 ''0x0a'' ''0x09'') empty_store)))) = [''0xa2'']"
  by (simp add: sample_defs model_defs)

text \<open>
  On a store that dooms a transaction at its first failed statement, the same call still
  runs the rest of the loop and the commit, which is then refused: nothing is written.
\<close>

lemma OnHead_doomed_transaction:
  "OnHead (refusing_receipt ''0xa1'' True) (indexer two_receipts)
      (cancun_header 10 ''0x0a'' ''0x09'') empty_store = (Returned, empty_store)"
  by (simp add: sample_defs model_defs)

section \<open>Reorganizations\<close>

text \<open>
  The transaction of \<open>OnReorg\<close> never holds an inserted row: whatever the replay writes,
  it writes through other transactions.
\<close>

lemma delete_rows_inserts:
  "inserts tx = ([], [], []) \<Longrightarrow> inserts (delete_rows s q n tx) = ([], [], [])"
  by (cases q) (simp_all add: inserts_def)

lemma exec_deletes_inserts:
  "inserts tx = ([], [], []) \<Longrightarrow> inserts (snd (exec_deletes env s tx n qs)) = ([], [], [])"
proof (induction qs arbitrary: tx)
  case Nil
  then show ?case by simp
next
  case (Cons q qs)
  have "inserts (delete_rows s q n tx) = ([], [], [])"
    using Cons.prems by (rule delete_rows_inserts)
  from Cons.IH [OF this] Cons.IH [OF Cons.prems] Cons.prems
  show ?case
    by (auto simp: exec_tx_def inserts_def simp del: delete_rows.simps split: prod.splits option.splits if_splits)
qed

lemma delete_old_inserts:
  "inserts tx = ([], [], []) \<Longrightarrow> inserts (snd (delete_old env s hs tx)) = ([], [], [])"
proof (induction hs arbitrary: tx)
  case Nil
  then show ?case by simp
next
  case (Cons h hs)
  let ?r = "DeleteBlockAndDescendantsWithTx env s tx (Uint64 (hNumber h))"
  have "inserts (snd ?r) = ([], [], [])"
    unfolding DeleteBlockAndDescendantsWithTx_def using Cons.prems by (rule exec_deletes_inserts)
  with Cons.IH [of "snd ?r"] show ?case
    by (cases ?r) (auto split: option.splits)
qed

lemma OnReorg_body_inserts:
  "OnReorg_body env p oldHeaders newHeaders s empty_tx = (out, tx', s') \<Longrightarrow> inserts tx' = ([], [], [])"
  using delete_old_inserts [of empty_tx env s oldHeaders]
  by (auto simp: OnReorg_body_def Commit_def inserts_def empty_tx_def split: prod.splits option.splits outcome.splits if_splits)

text \<open>
  Claim C1. \<open>OnReorg\<close> is said to insert every new header in the transaction that made
  the deletions, so that a failure anywhere leaves the store as it was before the call.
  The new headers go through \<open>p.OnHead\<close>, which begins and commits its own transaction
  for each block: with block 9 stored, a reorg to the new blocks 10 and 11 in which the
  insert of block 11 fails returns with the new block 10 committed and block 11 missing,
  not with the store as it was.
\<close>

theorem OnReorg_keeps_partial_replay:
  "map (\<lambda>r. (Number (columns r), Hash (columns r))) (rows (blocks store_9)) = [(9, ''0x09'')]
   \<and> fst (OnReorg (refusing_block 11) (indexer no_receipts)
        [cancun_header 10 ''0x0a'' ''0x09'']
        [cancun_header 10 ''0x1a'' ''0x09'', cancun_header 11 ''0x1b'' ''0x1a''] store_9)
      = Returned
   \<and> map (\<lambda>r. (Number (columns r), Hash (columns r)))
        (rows (blocks (snd (OnReorg (refusing_block 11) (indexer no_receipts)
           [cancun_header 10 ''0x0a'' ''0x09'']
           [cancun_header 10 ''0x1a'' ''0x09'', cancun_header 11 ''0x1b'' ''0x1a''] store_9))))
      = [(9, ''0x09''), (10, ''0x1a'')]"
  by (simp add: sample_defs model_defs)

end
